theory Spec2Isabelle
  imports Main "HOL-Library.Multiset"
begin

section \<open>Data model\<close>

text \<open>
  The ledger of \<^verbatim>\<open>BlockChainLogic.js\<close> and \<^verbatim>\<open>Block.js\<close>. An address is a
  string or \<^verbatim>\<open>null\<close> (the sender of a reward transaction); a hash is a string or
  \<^verbatim>\<open>undefined\<close> (a block is created with \<^verbatim>\<open>hash = undefined\<close>). JavaScript's
  \<^verbatim>\<open>===\<close> on such values is HOL equality on the option type. Timestamps and nonces
  are integers. Amounts are summed, so they are JavaScript numbers with their rounding.
\<close>

datatype error = TypeError | Error | CurrencyMismatch

section \<open>JavaScript numbers\<close>

text \<open>
  A JavaScript number is an IEEE-754 double. The model has the doubles whose value is an
  integer (\<open>Num v\<close>, negative zero being identified with zero), the two infinities and
  NaN; fractional amounts are outside the model. A double has a significand of 53 bits:
  every integer of magnitude up to \<open>2^53\<close> is a double, and a larger one is a double only
  if it is a multiple of \<open>2^(n - 53)\<close>, where \<open>n\<close> is the number of its binary digits.
\<close>

datatype number = Num int | PosInfinity | NegInfinity | NaN

fun bitLength :: "nat \<Rightarrow> nat" where
  "bitLength n = (if n = 0 then 0 else Suc (bitLength (n div 2)))"

declare bitLength.simps [simp del]

text \<open>
  Rounding of an exact integer result to the nearest double, ties to the even
  significand, as every arithmetic operation of JavaScript does.
\<close>

definition roundToDouble :: "int \<Rightarrow> int" where
  "roundToDouble x =
     (if \<bar>x\<bar> \<le> 2 ^ 53 then x
      else
        (let a = \<bar>x\<bar>;
             q = 2 ^ (bitLength (nat a) - 53);
             d = a div q;
             r = a mod q;
             d' = (if 2 * r < q then d
                   else if q < 2 * r then d + 1
                   else if even d then d else d + 1)
         in sgn x * (d' * q)))"

text \<open>A rounded result of magnitude \<open>2^1024\<close> or more overflows to an infinity.\<close>

definition toNumber :: "int \<Rightarrow> number" where
  "toNumber r =
     (if 2 ^ 1024 \<le> r then PosInfinity
      else if r \<le> - (2 ^ 1024) then NegInfinity
      else Num r)"

text \<open>The operators \<^verbatim>\<open>+\<close> and unary \<^verbatim>\<open>-\<close> on numbers.\<close>

fun jsAdd :: "number \<Rightarrow> number \<Rightarrow> number" where
  "jsAdd (Num a) (Num b) = toNumber (roundToDouble (a + b))"
| "jsAdd NaN y = NaN"
| "jsAdd x NaN = NaN"
| "jsAdd PosInfinity NegInfinity = NaN"
| "jsAdd NegInfinity PosInfinity = NaN"
| "jsAdd PosInfinity y = PosInfinity"
| "jsAdd x PosInfinity = PosInfinity"
| "jsAdd NegInfinity y = NegInfinity"
| "jsAdd x NegInfinity = NegInfinity"

fun jsNeg :: "number \<Rightarrow> number" where
  "jsNeg (Num a) = Num (- a)"
| "jsNeg PosInfinity = NegInfinity"
| "jsNeg NegInfinity = PosInfinity"
| "jsNeg NaN = NaN"

section \<open>Records of the ledger\<close>

type_synonym address = "string option"

record Money =
  currency :: string
  amount :: number

record Transaction =
  fromAddress :: address
  toAddress :: address
  money :: Money

record Block =
  block_id :: "int option"
  previousHash :: "string option"
  pendingTransactions :: "Transaction list"
  difficulty :: int
  nonce :: int
  timestamp :: int
  hash :: "string option"

record Blockchain =
  blocks :: "Block list"
  chain_pendingTransactions :: "Transaction list"

section \<open>Hashing\<close>

text \<open>
  \<^verbatim>\<open>HasHash(['timestamp', 'previousHash', 'nonce', 'pendingTransactions'])\<close>: the digest
  is computed from these four fields, in this order. The digest function itself
  (\<^verbatim>\<open>shared/HasHash\<close>) is not among the sources; it is the parameter \<open>H\<close> of every
  definition that hashes.
\<close>

type_synonym hashed_fields = "int \<times> string option \<times> int \<times> Transaction list"

type_synonym digest = "hashed_fields \<Rightarrow> string"

definition hashedFields :: "Block \<Rightarrow> hashed_fields" where
  "hashedFields b = (timestamp b, previousHash b, nonce b, pendingTransactions b)"

definition calculateHash :: "digest \<Rightarrow> Block \<Rightarrow> string" where
  "calculateHash H b = H (hashedFields b)"

text \<open>\<^verbatim>\<open>isGenesis () { return this.previousHash === '0'.repeat(64) }\<close>\<close>

definition isGenesis :: "Block \<Rightarrow> bool" where
  "isGenesis b = (previousHash b = Some (replicate 64 (CHR ''0'')))"

section \<open>Blockchain accessors\<close>

text \<open>
  Modelled from the spec: the Blockchain class (\<^verbatim>\<open>data/Blockchain\<close>) is not among the
  sources. The spec has an ordered, append-only sequence of blocks with the read
  accessors \<^verbatim>\<open>blocks()\<close>, \<^verbatim>\<open>blockAt(i)\<close> and \<^verbatim>\<open>last()\<close>, and \<^verbatim>\<open>push\<close> appending. Reading
  past the end of a JavaScript array gives \<^verbatim>\<open>undefined\<close>, here \<open>None\<close>.
\<close>

definition blockAt :: "Blockchain \<Rightarrow> nat \<Rightarrow> Block option" where
  "blockAt bc i = (if i < length (blocks bc) then Some (blocks bc ! i) else None)"



section \<open>Chain validity\<close>

text \<open>
  \<^verbatim>\<open>Array.prototype.every\<close> with a callback that may throw: it stops at the first
  element whose callback returns false or throws.
\<close>

fun every :: "('a \<Rightarrow> error + bool) \<Rightarrow> 'a list \<Rightarrow> error + bool" where
  "every p [] = Inr True"
| "every p (x # xs) =
     (case p x of
        Inl e \<Rightarrow> Inl e
      | Inr ok \<Rightarrow> if ok then every p xs else Inr False)"

text \<open>
  The callback of \<^verbatim>\<open>isChainValid\<close>:
  \<^verbatim>\<open>current.hash === Block.calculateHash(current) && current.previousHash === previous.hash\<close>.
  The second conjunct is evaluated only when the first holds; reading \<^verbatim>\<open>.hash\<close> of
  \<^verbatim>\<open>undefined\<close> throws.
\<close>

definition pairValid :: "digest \<Rightarrow> Block \<times> Block option \<Rightarrow> error + bool" where
  "pairValid H pair =
     (let current = fst pair; previous = snd pair in
      if hash current \<noteq> Some (calculateHash H current) then Inr False
      else (case previous of
              None \<Rightarrow> Inl TypeError
            | Some p \<Rightarrow> Inr (previousHash current = hash p)))"

text \<open>
  \<^verbatim>\<open>blocks().slice(1).map((currentBlock, currentIndex) =>
       Pair(Object, Object)(currentBlock, blockchain.blockAt(currentIndex)))\<close>:
  the index passed by \<^verbatim>\<open>map\<close> counts from 0 in the sliced array, so it is the index of
  the predecessor in the chain.
\<close>

definition blockPairs :: "Blockchain \<Rightarrow> (Block \<times> Block option) list" where
  "blockPairs bc =
     map (\<lambda>(currentIndex, currentBlock). (currentBlock, blockAt bc currentIndex))
         (enumerate 0 (drop 1 (blocks bc)))"

definition isChainValid :: "digest \<Rightarrow> Blockchain \<Rightarrow> error + bool" where
  "isChainValid H bc = every (pairValid H) (blockPairs bc)"

text \<open>
  \<^verbatim>\<open>newBlock.calculateHash()\<close> as a statement: the instance method stores the digest of
  the current fields in \<^verbatim>\<open>hash\<close> (the test of \<^verbatim>\<open>addBlockTo\<close> relies on it).
\<close>

definition Block_calculateHash :: "digest \<Rightarrow> Block \<Rightarrow> Block" where
  "Block_calculateHash H b = b\<lparr>hash := Some (calculateHash H b)\<rparr>"


section \<open>Block-level validation\<close>

text \<open>\<^verbatim>\<open>String.prototype.startsWith\<close>.\<close>

definition startsWith :: "string \<Rightarrow> string \<Rightarrow> bool" where
  "startsWith s p = (take (length p) s = p)"

text \<open>
  Modelled from the spec: \<^verbatim>\<open>block/validations\<close> is not among the sources. The spec
  (4.4) lists the standard checks of a block: the length of the hash equals the
  expected digest length; the hash is not tampered with (it equals the digest of the
  current fields); the hash satisfies the difficulty prefix; \<^verbatim>\<open>previousHash\<close> equals
  the hash of the looked-up previous block; the timestamp is not earlier than the
  previous block's. A check on a missing hash or a missing previous block does not hold.
\<close>

definition checkLength :: "nat \<Rightarrow> Block \<Rightarrow> bool" where
  "checkLength n b = (case hash b of None \<Rightarrow> False | Some h \<Rightarrow> length h = n)"

definition checkNoTampering :: "digest \<Rightarrow> Block \<Rightarrow> bool" where
  "checkNoTampering H b = (hash b = Some (calculateHash H b))"

definition checkDifficulty :: "int \<Rightarrow> Block \<Rightarrow> bool" where
  "checkDifficulty d b =
     (case hash b of None \<Rightarrow> False | Some h \<Rightarrow> startsWith h (replicate (nat d) (CHR ''0'')))"

definition checkLinkage :: "Block option \<Rightarrow> Block \<Rightarrow> bool" where
  "checkLinkage previous b =
     (case previous of None \<Rightarrow> False | Some p \<Rightarrow> previousHash b = hash p)"

definition checkTimestamps :: "Block option \<Rightarrow> Block \<Rightarrow> bool" where
  "checkTimestamps previous b =
     (case previous of None \<Rightarrow> False | Some p \<Rightarrow> timestamp p \<le> timestamp b)"

text \<open>
  Modelled from the spec: \<^verbatim>\<open>lookUp(hash)\<close> of the Blockchain class returns the block
  whose hash matches, or a not-found signal.
\<close>

definition lookUp :: "Blockchain \<Rightarrow> string option \<Rightarrow> Block option" where
  "lookUp bc h = find (\<lambda>b. hash b = h) (blocks bc)"

text \<open>The two-variant result of \<^verbatim>\<open>adt/validation\<close>: \<^verbatim>\<open>Success(value)\<close> or \<^verbatim>\<open>Failure(errors)\<close>.\<close>

datatype ('e, 'a) Validation = Success 'a | Failure 'e

definition showHash :: "string option \<Rightarrow> string" where
  "showHash h = (case h of None \<Rightarrow> ''undefined'' | Some s \<Rightarrow> s)"

text \<open>
  \<^verbatim>\<open>Block.isValid\<close> of \<^verbatim>\<open>Block.js\<close>: a genesis block is \<^verbatim>\<open>Success(true)\<close> at once;
  otherwise the previous block is looked up in the owning chain (passed here as \<open>bc\<close>)
  and the five checks are run with \<^verbatim>\<open>every\<close>.
\<close>

definition Block_isValid :: "digest \<Rightarrow> Blockchain \<Rightarrow> Block \<Rightarrow> (string list, bool) Validation" where
  "Block_isValid H bc this =
     (if isGenesis this then Success True
      else
        (let previous = lookUp bc (previousHash this);
             result = list_all (\<lambda>f. f this)
               [checkLength 64,
                checkNoTampering H,
                checkDifficulty (difficulty this),
                checkLinkage previous,
                checkTimestamps previous]
         in if result then Success True
            else Failure [''Validation failed for block '' @ showHash (hash this)]))"

text \<open>
  The reading of chain validity that is compared with \<^verbatim>\<open>isChainValid\<close>: every block
  after index 0, paired with its predecessor, passes all five standard checks.
\<close>

definition standardChecks :: "digest \<Rightarrow> Block \<Rightarrow> Block \<Rightarrow> bool" where
  "standardChecks H current previous =
     (checkLength 64 current \<and>
      checkNoTampering H current \<and>
      checkDifficulty (difficulty current) current \<and>
      checkLinkage (Some previous) current \<and>
      checkTimestamps (Some previous) current)"

definition allPairsStandard :: "digest \<Rightarrow> Blockchain \<Rightarrow> bool" where
  "allPairsStandard H bc =
     list_all (\<lambda>(current, previous). standardChecks H current previous)
       (zip (drop 1 (blocks bc)) (blocks bc))"

section \<open>Tampering with a block\<close>

text \<open>
  An assignment to one field of a block, \<^verbatim>\<open>block.nonce = 7\<close> for instance, with no
  recomputation of the hash; \<open>mutateAt\<close> performs it on the block at an index of the
  chain.
\<close>

datatype Mutation =
    SetBlockId "int option"
  | SetPreviousHash "string option"
  | SetPendingTransactions "Transaction list"
  | SetDifficulty int
  | SetNonce int
  | SetTimestamp int
  | SetHash "string option"

fun mutate :: "Mutation \<Rightarrow> Block \<Rightarrow> Block" where
  "mutate (SetBlockId v) b = b\<lparr>block_id := v\<rparr>"
| "mutate (SetPreviousHash v) b = b\<lparr>previousHash := v\<rparr>"
| "mutate (SetPendingTransactions v) b = b\<lparr>pendingTransactions := v\<rparr>"
| "mutate (SetDifficulty v) b = b\<lparr>difficulty := v\<rparr>"
| "mutate (SetNonce v) b = b\<lparr>nonce := v\<rparr>"
| "mutate (SetTimestamp v) b = b\<lparr>timestamp := v\<rparr>"
| "mutate (SetHash v) b = b\<lparr>hash := v\<rparr>"

definition mutateAt :: "nat \<Rightarrow> Mutation \<Rightarrow> Blockchain \<Rightarrow> Blockchain" where
  "mutateAt i m bc =
     (if i < length (blocks bc)
      then bc\<lparr>blocks := (blocks bc)[i := mutate m (blocks bc ! i)]\<rparr>
      else bc)"

text \<open>
  The mutations that the chain validity check can see: a new value of \<^verbatim>\<open>hash\<close> or of
  \<^verbatim>\<open>previousHash\<close>, and a new value of a field of the digest's field list that the digest
  tells apart from the old one. \<^verbatim>\<open>id\<close> and \<^verbatim>\<open>difficulty\<close> are not in the field list.
\<close>

fun tamperEvident :: "digest \<Rightarrow> Mutation \<Rightarrow> Block \<Rightarrow> bool" where
  "tamperEvident H (SetHash v) b = (v \<noteq> hash b)"
| "tamperEvident H (SetPreviousHash v) b = (v \<noteq> previousHash b)"
| "tamperEvident H (SetBlockId v) b = False"
| "tamperEvident H (SetDifficulty v) b = False"
| "tamperEvident H m b = (calculateHash H (mutate m b) \<noteq> calculateHash H b)"

text \<open>
  The ledger invariant of the spec (3): for every index \<open>i > 0\<close>,
  \<^verbatim>\<open>block[i].previousHash == block[i-1].hash\<close> and \<^verbatim>\<open>block[i].hash\<close> is the digest of the
  current fields of \<^verbatim>\<open>block[i]\<close>.
\<close>

definition ledgerInvariant :: "digest \<Rightarrow> Blockchain \<Rightarrow> bool" where
  "ledgerInvariant H bc =
     list_all (\<lambda>(current, previous).
                 previousHash current = hash previous \<and>
                 hash current = Some (calculateHash H current))
       (zip (drop 1 (blocks bc)) (blocks bc))"

section \<open>A digest for concrete inputs\<close>

text \<open>
  The theorems below hold for every digest \<open>H\<close>. To evaluate the definitions on concrete
  chains a digest is needed; \<open>sample_digest\<close> stands in for the one of \<^verbatim>\<open>HasHash\<close>. It
  returns 64 hexadecimal characters, the first two of which encode the sum of the
  timestamp, the nonce and the number of transactions modulo 256.
\<close>

definition hexDigit :: "nat \<Rightarrow> char" where
  "hexDigit n = ''0123456789abcdef'' ! (n mod 16)"

definition sample_digest :: digest where
  "sample_digest hf =
     (case hf of (ts, prev, n, txs) \<Rightarrow>
        (let k = nat ((ts + n + int (length txs)) mod 256)
         in hexDigit (k div 16) # hexDigit k # replicate 62 (CHR ''a'')))"

definition sampleGenesis :: Block where
  "sampleGenesis = Block_calculateHash sample_digest
     \<lparr>block_id = Some 0, previousHash = Some (replicate 64 (CHR ''0'')),
      pendingTransactions = [], difficulty = 2, nonce = 0, timestamp = 10, hash = None\<rparr>"

definition sampleBlock :: "int \<Rightarrow> int \<Rightarrow> Transaction list \<Rightarrow> Block" where
  "sampleBlock ts n txs =
     \<lparr>block_id = Some 1, previousHash = None, pendingTransactions = txs,
      difficulty = 2, nonce = n, timestamp = ts, hash = None\<rparr>"

definition genesisChain :: Blockchain where
  "genesisChain = \<lparr>blocks = [sampleGenesis], chain_pendingTransactions = []\<rparr>"

section \<open>Money and balances\<close>

text \<open>\<^verbatim>\<open>Money(currency, amount)\<close>: a currency tag and a numeric amount.\<close>

definition mkMoney :: "string \<Rightarrow> number \<Rightarrow> Money" where
  "mkMoney c a = \<lparr>currency = c, amount = a\<rparr>"

text \<open>
  \<^verbatim>\<open>Array.prototype.reduce\<close> with no initial value: on an empty array it throws a
  TypeError, otherwise the first element seeds the fold.
\<close>

fun reduce1 :: "('a \<Rightarrow> 'a \<Rightarrow> 'a) \<Rightarrow> 'a list \<Rightarrow> error + 'a" where
  "reduce1 f [] = Inl TypeError"
| "reduce1 f (x # xs) = Inr (foldl f x xs)"

text \<open>
  \<^verbatim>\<open>Array.prototype.reduce\<close> with an initial value and a callback that may throw: the
  fold from the left, stopped by the first exception.
\<close>

fun reduce :: "('b \<Rightarrow> 'a \<Rightarrow> error + 'b) \<Rightarrow> 'b \<Rightarrow> 'a list \<Rightarrow> error + 'b" where
  "reduce f acc [] = Inr acc"
| "reduce f acc (x # xs) =
     (case f acc x of
        Inl e \<Rightarrow> Inl e
      | Inr acc' \<Rightarrow> reduce f acc' xs)"

text \<open>\<^verbatim>\<open>concat\<close> of ramda, as imported by \<^verbatim>\<open>BlockChainLogic.js\<close>.\<close>

definition R_concat :: "'a list \<Rightarrow> 'a list \<Rightarrow> 'a list" where
  "R_concat a b = a @ b"

text \<open>
  \<^verbatim>\<open>Array.prototype.split\<close> of \<^verbatim>\<open>helpers.js\<close>:
  \<^verbatim>\<open>[this.filter(pred1), this.filter(pred2)]\<close>, a two-element array, here a pair.
\<close>

definition split :: "('a \<Rightarrow> bool) \<Rightarrow> ('a \<Rightarrow> bool) \<Rightarrow> 'a list \<Rightarrow> 'a list \<times> 'a list" where
  "split pred1 pred2 this = (filter pred1 this, filter pred2 this)"

text \<open>
  Modelled from the spec: \<^verbatim>\<open>flatBiMap\<close> is not among the sources. It follows its
  sibling \<^verbatim>\<open>multiMap\<close> of \<^verbatim>\<open>helpers.js\<close>, which maps the first function over the
  first group, the second function over the second group, and concatenates; this is
  what the balance contract of the spec (4.6) needs.
\<close>

definition flatBiMap :: "('a \<Rightarrow> 'b) \<Rightarrow> ('a \<Rightarrow> 'b) \<Rightarrow> 'a list \<times> 'a list \<Rightarrow> 'b list" where
  "flatBiMap fn1 fn2 groups = map fn1 (fst groups) @ map fn2 (snd groups)"

text \<open>
  \<^verbatim>\<open>calculateBalanceOfAddress\<close> of \<^verbatim>\<open>BlockChainLogic.js\<close>, stage by stage.
  \<^verbatim>\<open>Money.add\<close> and \<^verbatim>\<open>Money.nothing()\<close> belong to \<^verbatim>\<open>data/Money\<close>, which is not among
  the sources; they are the parameters \<open>add\<close> (which may throw) and \<open>nothing\<close>.
\<close>

definition calculateBalanceOfAddress ::
  "(Money \<Rightarrow> Money \<Rightarrow> error + Money) \<Rightarrow> Money \<Rightarrow> Blockchain \<Rightarrow> address \<Rightarrow> error + Money" where
  "calculateBalanceOfAddress add nothing blockchain address =
     (case reduce1 R_concat
             (map (\<lambda>txBlock. pendingTransactions txBlock)
                (filter (\<lambda>b. \<not> isGenesis b) (blocks blockchain))) of
        Inl e \<Rightarrow> Inl e
      | Inr txs \<Rightarrow>
          reduce add nothing
            (flatBiMap
               (\<lambda>tx. mkMoney (currency (money tx)) (jsNeg (amount (money tx))))
               (\<lambda>tx. mkMoney (currency (money tx)) (amount (money tx)))
               (split (\<lambda>tx. fromAddress tx = address) (\<lambda>tx. toAddress tx = address) txs)))"

text \<open>
  The imperative version that \<^verbatim>\<open>BlockChainLogic.js\<close> keeps in a comment next to the
  functional one: the fold of the spec's contract (4.6), seeded at \<^verbatim>\<open>Money.nothing()\<close>.
  The methods \<^verbatim>\<open>plus\<close> and \<^verbatim>\<open>minus\<close> of Money are the parameters \<open>moneyPlus\<close> and
  \<open>moneyMinus\<close>.
\<close>

definition balanceStep ::
  "(Money \<Rightarrow> Money \<Rightarrow> error + Money) \<Rightarrow> (Money \<Rightarrow> Money \<Rightarrow> error + Money) \<Rightarrow>
   address \<Rightarrow> Money \<Rightarrow> Transaction \<Rightarrow> error + Money" where
  "balanceStep moneyPlus moneyMinus address balance tx =
     (case (if fromAddress tx = address then moneyMinus balance (money tx) else Inr balance) of
        Inl e \<Rightarrow> Inl e
      | Inr balance1 \<Rightarrow>
          if toAddress tx = address then moneyPlus balance1 (money tx) else Inr balance1)"

definition calculateBalanceOfAddress_imperative ::
  "(Money \<Rightarrow> Money \<Rightarrow> error + Money) \<Rightarrow> (Money \<Rightarrow> Money \<Rightarrow> error + Money) \<Rightarrow>
   Money \<Rightarrow> Blockchain \<Rightarrow> address \<Rightarrow> error + Money" where
  "calculateBalanceOfAddress_imperative moneyPlus moneyMinus nothing blockchain address =
     reduce (\<lambda>balance block.
               if \<not> isGenesis block
               then reduce (balanceStep moneyPlus moneyMinus address) balance (pendingTransactions block)
               else Inr balance)
       nothing (blocks blockchain)"

text \<open>
  Modelled from the spec: \<^verbatim>\<open>Money.nothing()\<close> and \<^verbatim>\<open>Money.add\<close> of \<^verbatim>\<open>data/Money\<close>, which is
  not among the sources. The spec (3): Money is a commutative monoid under addition with
  identity \<^verbatim>\<open>nothing()\<close>, the zero amount; addition across differing currencies is
  rejected. The amounts are added as JavaScript numbers.
\<close>

definition Money_nothing :: Money where
  "Money_nothing = mkMoney [] (Num 0)"

definition Money_add :: "Money \<Rightarrow> Money \<Rightarrow> error + Money" where
  "Money_add m1 m2 =
     (if m1 = Money_nothing then Inr m2
      else if m2 = Money_nothing then Inr m1
      else if currency m1 = currency m2
           then Inr (mkMoney (currency m1) (jsAdd (amount m1) (amount m2)))
           else Inl CurrencyMismatch)"

text \<open>
  One block is another with its transactions in a different order.
\<close>

definition txReordered :: "Block \<Rightarrow> Block \<Rightarrow> bool" where
  "txReordered b b' =
     (b' = b\<lparr>pendingTransactions := pendingTransactions b'\<rparr> \<and>
      mset (pendingTransactions b') = mset (pendingTransactions b))"

text \<open>
  The transactions that count for a balance, and the ledgers on which every partial sum
  of a balance is exact: all amounts are integers in one currency \<open>c\<close>, and their
  magnitudes add up to at most \<open>2^52\<close> (a transaction may count twice, as sent and as
  received, so that no partial sum exceeds \<open>2^53\<close>).
\<close>

definition ledgerTxs :: "Blockchain \<Rightarrow> Transaction list" where
  "ledgerTxs bc = concat (map pendingTransactions (filter (\<lambda>b. \<not> isGenesis b) (blocks bc)))"

fun intOf :: "number \<Rightarrow> int" where
  "intOf (Num v) = v"
| "intOf PosInfinity = 0"
| "intOf NegInfinity = 0"
| "intOf NaN = 0"

definition exactTxs :: "string \<Rightarrow> Transaction list \<Rightarrow> bool" where
  "exactTxs c txs =
     (list_all (\<lambda>tx. currency (money tx) = c \<and>
                      amount (money tx) = Num (intOf (amount (money tx)))) txs \<and>
      sum_list (map (\<lambda>tx. \<bar>intOf (amount (money tx))\<bar>) txs) \<le> 2 ^ 52)"

definition exactLedger :: "string \<Rightarrow> Blockchain \<Rightarrow> bool" where
  "exactLedger c bc = exactTxs c (ledgerTxs bc)"

text \<open>
  The list of signed amounts that \<^verbatim>\<open>calculateBalanceOfAddress\<close> sums, the transactions
  of a block as a multiset, the net amount that a transaction and a list of
  transactions contribute to the balance of an address, and the balance they give on an
  exact ledger; these only serve to state the intermediate lemmas.
\<close>

definition mapped :: "address \<Rightarrow> Transaction list \<Rightarrow> Money list" where
  "mapped a txs =
     flatBiMap
       (\<lambda>tx. mkMoney (currency (money tx)) (jsNeg (amount (money tx))))
       (\<lambda>tx. mkMoney (currency (money tx)) (amount (money tx)))
       (split (\<lambda>tx. fromAddress tx = a) (\<lambda>tx. toAddress tx = a) txs)"

definition blockTxs :: "Block \<Rightarrow> Transaction multiset" where
  "blockTxs b = (if isGenesis b then {#} else mset (pendingTransactions b))"

definition txDelta :: "address \<Rightarrow> Transaction \<Rightarrow> int" where
  "txDelta a tx =
     (if toAddress tx = a then intOf (amount (money tx)) else 0)
     - (if fromAddress tx = a then intOf (amount (money tx)) else 0)"

definition netAmount :: "address \<Rightarrow> Transaction list \<Rightarrow> int" where
  "netAmount a txs = sum_list (map (txDelta a) txs)"

definition balanceValue :: "string \<Rightarrow> address \<Rightarrow> Transaction list \<Rightarrow> Money" where
  "balanceValue c a txs =
     (if \<exists>tx\<in>set txs. fromAddress tx = a \<or> toAddress tx = a
      then mkMoney c (Num (netAmount a txs))
      else Money_nothing)"

section \<open>Mining\<close>

text \<open>
  Modelled from the spec: \<^verbatim>\<open>block/proof_of_work\<close> is not among the sources. The spec
  (4.2): starting from the given nonce, recompute the hash and increment the nonce
  until the hash starts with the prefix; return the block with the final nonce and hash
  set; with the empty prefix the first attempt succeeds. There is no bound on the
  number of iterations, so the result is \<open>None\<close> when the search never ends.
\<close>

partial_function (option) proofOfWork :: "digest \<Rightarrow> Block \<Rightarrow> string \<Rightarrow> int \<Rightarrow> Block option" where
  "proofOfWork H block hashPrefix n =
     (let attempt = Block_calculateHash H (block\<lparr>nonce := n\<rparr>) in
      if startsWith (calculateHash H attempt) hashPrefix then Some attempt
      else proofOfWork H block hashPrefix (n + 1))"

text \<open>
  \<^verbatim>\<open>Block.mine\<close>: \<^verbatim>\<open>proofOfWork(this, ''.padStart(this.difficulty, '0'), this.nonce)\<close>.
  \<^verbatim>\<open>padStart\<close> with a length that is not positive leaves the empty string.
\<close>

definition Block_mine :: "digest \<Rightarrow> Block \<Rightarrow> Block option" where
  "Block_mine H this =
     proofOfWork H this (replicate (nat (difficulty this)) (CHR ''0'')) (nonce this)"


text \<open>
  The difficulty predicate on a nonce: with this nonce and its other fields fixed, the
  digest of the block starts with \<^verbatim>\<open>difficulty\<close> zero characters. \<open>leadingZeros\<close>
  counts the zero characters at the front of a hash.
\<close>

definition meetsDifficulty :: "digest \<Rightarrow> Block \<Rightarrow> int \<Rightarrow> bool" where
  "meetsDifficulty H b m =
     startsWith (calculateHash H (b\<lparr>nonce := m\<rparr>)) (replicate (nat (difficulty b)) (CHR ''0''))"

definition leadingZeros :: "string \<Rightarrow> nat" where
  "leadingZeros h = length (takeWhile (\<lambda>c. c = CHR ''0'') h)"


definition BTC :: string where
  "BTC = [CHR 0xE2, CHR 0x82, CHR 0xBF]"


text \<open>
  Modelled from the spec: the \<^verbatim>\<open>Transaction\<close> factory of \<^verbatim>\<open>data/Transaction\<close>, called
  as \<^verbatim>\<open>Transaction(sender, recipient, funds)\<close>, is not among the sources. It stores its
  arguments in the fields that \<^verbatim>\<open>calculateBalanceOfAddress\<close> reads.
\<close>

definition mkTransaction :: "address \<Rightarrow> address \<Rightarrow> Money \<Rightarrow> Transaction" where
  "mkTransaction sender recipient funds =
     \<lparr>fromAddress = sender, toAddress = recipient, money = funds\<rparr>"




section \<open>The validation monad\<close>

text \<open>
  \<^verbatim>\<open>Functor\<close> and \<^verbatim>\<open>Monad\<close> of \<^verbatim>\<open>5-6-5.spec.mjs\<close>. \<^verbatim>\<open>Success\<close> is built with
  \<^verbatim>\<open>shortCircuit\<close> unset: \<^verbatim>\<open>map(f)\<close> is \<^verbatim>\<open>Success.of(f(this.get()))\<close> and \<^verbatim>\<open>flatMap(f)\<close> is
  \<^verbatim>\<open>this.map(f).get()\<close>, that is \<^verbatim>\<open>f(this.get())\<close>. \<^verbatim>\<open>Failure\<close> is built with
  \<^verbatim>\<open>Failure.SHORT_CIRCUIT = true\<close>: both return \<^verbatim>\<open>this\<close>.
\<close>

definition Validation_of :: "'a \<Rightarrow> ('e, 'a) Validation" where
  "Validation_of v = Success v"

fun Validation_map :: "('a \<Rightarrow> 'b) \<Rightarrow> ('e, 'a) Validation \<Rightarrow> ('e, 'b) Validation" where
  "Validation_map f (Success a) = Success (f a)"
| "Validation_map f (Failure e) = Failure e"

fun flatMap :: "('e, 'a) Validation \<Rightarrow> ('a \<Rightarrow> ('e, 'b) Validation) \<Rightarrow> ('e, 'b) Validation" where
  "flatMap (Success a) f = f a"
| "flatMap (Failure e) f = Failure e"

text \<open>\<^verbatim>\<open>get\<close>: the value of a \<^verbatim>\<open>Success\<close>; on a \<^verbatim>\<open>Failure\<close> it throws an \<^verbatim>\<open>Error\<close>.\<close>

fun Validation_get :: "('e, 'a) Validation \<Rightarrow> error + 'a" where
  "Validation_get (Success a) = Inr a"
| "Validation_get (Failure e) = Inl Error"

text \<open>
  A pipeline is the chain \<^verbatim>\<open>Validation.of(entity).flatMap(c1).flatMap(c2)...\<close> of
  \<^verbatim>\<open>Transaction.isValid\<close>, for a list of checks.
\<close>

definition pipeline :: "('a \<Rightarrow> ('e, 'a) Validation) list \<Rightarrow> 'a \<Rightarrow> ('e, 'a) Validation" where
  "pipeline checks entity = foldl flatMap (Validation_of entity) checks"

text \<open>
  \<^verbatim>\<open>Transaction.isValid\<close>; \<^verbatim>\<open>checkSignature\<close> and \<^verbatim>\<open>checkTampering\<close> are imported from
  files that are not among the sources and are parameters here.
\<close>

definition Transaction_isValid ::
  "('a \<Rightarrow> ('e, 'a) Validation) \<Rightarrow> ('a \<Rightarrow> ('e, 'a) Validation) \<Rightarrow> 'a \<Rightarrow> ('e, bool) Validation" where
  "Transaction_isValid checkSignature checkTampering this =
     flatMap (flatMap (flatMap (Validation_of this) checkSignature) checkTampering)
       (\<lambda>_. Success True)"

text \<open>
  Two checks of \<^verbatim>\<open>5-6-5.spec.mjs\<close>, which return \<^verbatim>\<open>Success.of(block)\<close> or a
  \<^verbatim>\<open>Failure\<close> with a message.
\<close>

definition checkTimestampsV :: "int \<Rightarrow> Block \<Rightarrow> (string, Block) Validation" where
  "checkTimestampsV previousBlockTimestamp block =
     (if previousBlockTimestamp \<le> timestamp block then Success block
      else Failure ''Block timestamps out of order'')"

definition checkTamperingV :: "digest \<Rightarrow> Block \<Rightarrow> (string, Block) Validation" where
  "checkTamperingV H block =
     (if hash block = Some (calculateHash H block) then Success block
      else Failure ''Block hash is invalid'')"

section \<open>Concrete chains\<close>

text \<open>A chain of two blocks whose second block is older than the first.\<close>

definition earlyChain :: Blockchain where
  "earlyChain =
     \<lparr>blocks = [sampleGenesis,
         Block_calculateHash sample_digest
           ((sampleBlock 5 251 [])\<lparr>previousHash := hash sampleGenesis\<rparr>)],
      chain_pendingTransactions = []\<rparr>"

text \<open>
  A chain of three blocks: a genesis block, a block that funds two addresses, and a
  block with a transfer between them.
\<close>

definition tx1 :: Transaction where
  "tx1 = mkTransaction None (Some ''alice'') (mkMoney BTC (Num 100))"

definition tx2 :: Transaction where
  "tx2 = mkTransaction None (Some ''bob'') (mkMoney BTC (Num 4))"

definition tx3 :: Transaction where
  "tx3 = mkTransaction (Some ''alice'') (Some ''bob'') (mkMoney BTC (Num 30))"

definition block1 :: Block where
  "block1 = Block_calculateHash sample_digest
     ((sampleBlock 20 234 [tx1, tx2])\<lparr>previousHash := hash sampleGenesis\<rparr>)"

definition block2 :: Block where
  "block2 = Block_calculateHash sample_digest
     ((sampleBlock 30 225 [tx3])\<lparr>previousHash := hash block1\<rparr>)"

definition sampleChain :: Blockchain where
  "sampleChain = \<lparr>blocks = [sampleGenesis, block1, block2], chain_pendingTransactions = []\<rparr>"

text \<open>The same chain, processed in another order and with the transactions of its
  second block swapped.\<close>

definition block1' :: Block where
  "block1' = block1\<lparr>pendingTransactions := [tx2, tx1]\<rparr>"

definition shuffledChain :: Blockchain where
  "shuffledChain = \<lparr>blocks = [block2, sampleGenesis, block1'], chain_pendingTransactions = []\<rparr>"

text \<open>A block with the genesis sentinel as previous hash, a negative timestamp and
  no hash.\<close>

definition oddGenesis :: Block where
  "oddGenesis = (sampleBlock (- 5) 3 [tx3])\<lparr>previousHash := Some (replicate 64 (CHR ''0''))\<rparr>"

text \<open>Blocks to mine: the first needs two attempts at difficulty 2, the second has
  difficulty 0, the third has difficulty 1 and a digest with two leading zeros.\<close>

definition miningBlock :: Block where
  "miningBlock = sampleBlock 255 0 []"

definition freeBlock :: Block where
  "freeBlock = (sampleBlock 7 0 [])\<lparr>difficulty := 0\<rparr>"

definition easyBlock :: Block where
  "easyBlock = (sampleBlock 0 0 [])\<lparr>difficulty := 1\<rparr>"

text \<open>A chain with one pending transaction, and the second block of the sample chain
  with its nonce overwritten.\<close>

definition pendingChain :: Blockchain where
  "pendingChain = \<lparr>blocks = [sampleGenesis], chain_pendingTransactions = [tx2]\<rparr>"

definition tamperedBlock1 :: Block where
  "tamperedBlock1 = block1\<lparr>nonce := 7\<rparr>"




text \<open>
  A block that pays \<open>2^53\<close>, 1 and 1 to the same address, the same block with the
  payments in another order, and the two chains that hold them.
\<close>

definition bigTx :: Transaction where
  "bigTx = mkTransaction None (Some ''bob'') (mkMoney BTC (Num 9007199254740992))"

definition oneTx :: Transaction where
  "oneTx = mkTransaction None (Some ''bob'') (mkMoney BTC (Num 1))"

definition bigBlock :: Block where
  "bigBlock = Block_calculateHash sample_digest
     ((sampleBlock 50 0 [bigTx, oneTx, oneTx])\<lparr>previousHash := hash sampleGenesis\<rparr>)"

definition bigBlock' :: Block where
  "bigBlock' = bigBlock\<lparr>pendingTransactions := [oneTx, oneTx, bigTx]\<rparr>"

definition bigChain :: Blockchain where
  "bigChain = \<lparr>blocks = [sampleGenesis, bigBlock], chain_pendingTransactions = []\<rparr>"

definition bigChain' :: Blockchain where
  "bigChain' = \<lparr>blocks = [sampleGenesis, bigBlock'], chain_pendingTransactions = []\<rparr>"

section \<open>Evaluation on the concrete chains\<close>

lemmas sample_simps =
  sampleGenesis_def sampleBlock_def genesisChain_def earlyChain_def sampleChain_def
  shuffledChain_def block1_def block2_def block1'_def oddGenesis_def tx1_def tx2_def tx3_def
  sample_digest_def hexDigit_def Block_calculateHash_def calculateHash_def hashedFields_def
  mkTransaction_def mkMoney_def BTC_def miningBlock_def freeBlock_def easyBlock_def
  pendingChain_def tamperedBlock1_def

lemmas check_simps =
  checkLength_def checkNoTampering_def checkDifficulty_def checkLinkage_def
  checkTimestamps_def startsWith_def

lemma replicate_2: "replicate 2 c = [c, c]"
  by (simp add: numeral_2_eq_2)

lemma sampleChain_valid: "isChainValid sample_digest sampleChain = Inr True"
  by (simp add: isChainValid_def blockPairs_def pairValid_def blockAt_def enumerate_eq_zip
      sample_simps)

lemma sampleChain_invariant: "ledgerInvariant sample_digest sampleChain"
  by (simp add: ledgerInvariant_def sample_simps)

section \<open>The chain validity check\<close>

lemma every_Inr:
  "(\<And>x. x \<in> set xs \<Longrightarrow> p x = Inr (q x)) \<Longrightarrow> every p xs = Inr (\<forall>x\<in>set xs. q x)"
  by (induction xs) auto

lemma length_blockPairs: "length (blockPairs bc) = length (blocks bc) - 1"
  by (simp add: blockPairs_def)

lemma blockPairs_nth:
  assumes "i < length (blocks bc) - 1"
  shows "blockPairs bc ! i = (blocks bc ! Suc i, Some (blocks bc ! i))"
  using assms by (simp add: blockPairs_def blockAt_def nth_enumerate_eq)

lemma pairValid_nth:
  assumes "i < length (blocks bc) - 1"
  shows "pairValid H (blockPairs bc ! i) =
     Inr (checkNoTampering H (blocks bc ! Suc i) \<and> checkLinkage (Some (blocks bc ! i)) (blocks bc ! Suc i))"
  using assms
  by (auto simp: blockPairs_nth pairValid_def checkNoTampering_def checkLinkage_def Let_def)

lemma isChainValid_index:
  "isChainValid H bc =
     Inr (\<forall>i. i < length (blocks bc) - 1 \<longrightarrow>
            checkNoTampering H (blocks bc ! Suc i) \<and>
            checkLinkage (Some (blocks bc ! i)) (blocks bc ! Suc i))"
proof -
  have "isChainValid H bc = Inr (\<forall>x\<in>set (blockPairs bc). pairValid H x = Inr True)"
    unfolding isChainValid_def
  proof (rule every_Inr)
    fix x assume "x \<in> set (blockPairs bc)"
    then obtain j where "j < length (blocks bc) - 1" "x = blockPairs bc ! j"
      by (auto simp: in_set_conv_nth length_blockPairs)
    then show "pairValid H x = Inr (pairValid H x = Inr True)"
      by (simp add: pairValid_nth)
  qed
  also have "(\<forall>x\<in>set (blockPairs bc). pairValid H x = Inr True)
      = (\<forall>i. i < length (blocks bc) - 1 \<longrightarrow>
            checkNoTampering H (blocks bc ! Suc i) \<and>
            checkLinkage (Some (blocks bc ! i)) (blocks bc ! Suc i))"
    by (simp add: all_set_conv_all_nth length_blockPairs pairValid_nth)
  finally show ?thesis .
qed

lemma list_all_zip_drop:
  "list_all (\<lambda>(c, p). Q c p) (zip (drop 1 bs) bs) = (\<forall>i. i < length bs - 1 \<longrightarrow> Q (bs ! Suc i) (bs ! i))"
  by (auto simp: list_all_length)

lemma allPairsStandard_valid:
  assumes "allPairsStandard H bc"
  shows "isChainValid H bc = Inr True"
proof -
  have "\<forall>i. i < length (blocks bc) - 1 \<longrightarrow>
          standardChecks H (blocks bc ! Suc i) (blocks bc ! i)"
    using assms unfolding allPairsStandard_def list_all_zip_drop .
  then show ?thesis
    by (simp add: isChainValid_index standardChecks_def)
qed

lemma ledgerInvariant_index:
  "ledgerInvariant H bc =
     (\<forall>i. i < length (blocks bc) - 1 \<longrightarrow>
            checkNoTampering H (blocks bc ! Suc i) \<and>
            checkLinkage (Some (blocks bc ! i)) (blocks bc ! Suc i))"
  unfolding ledgerInvariant_def list_all_zip_drop
  by (auto simp: checkNoTampering_def checkLinkage_def)

text \<open>
  Claim C1, as the code has it. \<^verbatim>\<open>isChainValid\<close> never throws, and it returns true
  if and only if every block after index 0, paired with its predecessor, passes the two
  checks that the function performs: the hash equals the recomputed digest of the
  current fields, and \<^verbatim>\<open>previousHash\<close> equals the hash of the previous block. The hash
  length, the difficulty prefix and the order of the timestamps are not looked at; a
  chain whose pairs pass all five standard checks is valid in particular.
\<close>

theorem isChainValid_tamper_and_linkage:
  "isChainValid H bc =
     Inr (\<forall>i. 0 < i \<and> i < length (blocks bc) \<longrightarrow>
            checkNoTampering H (blocks bc ! i) \<and>
            checkLinkage (Some (blocks bc ! (i - 1))) (blocks bc ! i)) \<and>
   (allPairsStandard H bc \<longrightarrow> isChainValid H bc = Inr True)"
proof -
  have "(\<forall>i. 0 < i \<and> i < length (blocks bc) \<longrightarrow>
            checkNoTampering H (blocks bc ! i) \<and>
            checkLinkage (Some (blocks bc ! (i - 1))) (blocks bc ! i))
     = (\<forall>i. i < length (blocks bc) - 1 \<longrightarrow>
            checkNoTampering H (blocks bc ! Suc i) \<and>
            checkLinkage (Some (blocks bc ! i)) (blocks bc ! Suc i))"
  proof (intro iffI allI impI)
    fix i assume a: "\<forall>i. 0 < i \<and> i < length (blocks bc) \<longrightarrow>
            checkNoTampering H (blocks bc ! i) \<and>
            checkLinkage (Some (blocks bc ! (i - 1))) (blocks bc ! i)" and "i < length (blocks bc) - 1"
    then show "checkNoTampering H (blocks bc ! Suc i) \<and>
            checkLinkage (Some (blocks bc ! i)) (blocks bc ! Suc i)"
      using a[rule_format, of "Suc i"] by simp
  next
    fix i assume a: "\<forall>i. i < length (blocks bc) - 1 \<longrightarrow>
            checkNoTampering H (blocks bc ! Suc i) \<and>
            checkLinkage (Some (blocks bc ! i)) (blocks bc ! Suc i)" and i: "0 < i \<and> i < length (blocks bc)"
    then show "checkNoTampering H (blocks bc ! i) \<and>
            checkLinkage (Some (blocks bc ! (i - 1))) (blocks bc ! i)"
      using a[rule_format, of "i - 1"] by (cases i) auto
  qed
  then have "isChainValid H bc =
     Inr (\<forall>i. 0 < i \<and> i < length (blocks bc) \<longrightarrow>
            checkNoTampering H (blocks bc ! i) \<and>
            checkLinkage (Some (blocks bc ! (i - 1))) (blocks bc ! i))"
    by (simp only: isChainValid_index)
  moreover have "allPairsStandard H bc \<longrightarrow> isChainValid H bc = Inr True"
    using allPairsStandard_valid by blast
  ultimately show ?thesis by (rule conjI)
qed

text \<open>
  The pairs of the sample chain pass all five standard checks; the check returns true,
  and the block at index 2 passes both checks against the block at index 1.
\<close>

theorem isChainValid_tamper_and_linkage_witness:
  "(0::nat) < 2 \<and> 2 < length (blocks sampleChain) \<and>
   allPairsStandard sample_digest sampleChain \<and>
   isChainValid sample_digest sampleChain = Inr True \<and>
   checkNoTampering sample_digest (blocks sampleChain ! 2) \<and>
   checkLinkage (Some (blocks sampleChain ! (2 - 1))) (blocks sampleChain ! 2)"
proof -
  have l: "(0::nat) < 2 \<and> 2 < length (blocks sampleChain)"
    by (simp add: sampleChain_def)
  have s: "allPairsStandard sample_digest sampleChain"
    by (simp add: allPairsStandard_def standardChecks_def check_simps replicate_2 sample_simps)
  note inst = isChainValid_tamper_and_linkage[of sample_digest sampleChain]
  from inst s have v: "isChainValid sample_digest sampleChain = Inr True"
    by blast
  with inst have "\<forall>i. 0 < i \<and> i < length (blocks sampleChain) \<longrightarrow>
            checkNoTampering sample_digest (blocks sampleChain ! i) \<and>
            checkLinkage (Some (blocks sampleChain ! (i - 1))) (blocks sampleChain ! i)"
    by simp
  with l s v show ?thesis by blast
qed

text \<open>
  The claim as stated fails: the second block of \<open>earlyChain\<close> carries a correct hash of
  the right length with the difficulty prefix and points to its predecessor, but is older
  than its predecessor. \<^verbatim>\<open>isChainValid\<close> returns true although the timestamp check
  fails.
\<close>

theorem isChainValid_ignores_timestamps:
  "isChainValid sample_digest earlyChain = Inr True \<and>
   \<not> allPairsStandard sample_digest earlyChain"
  by (simp add: isChainValid_def blockPairs_def pairValid_def blockAt_def enumerate_eq_zip
      allPairsStandard_def standardChecks_def check_simps sample_simps)




text \<open>
  Claim C7. A block whose \<^verbatim>\<open>previousHash\<close> is the sentinel of 64 zero characters is
  \<^verbatim>\<open>Success(true)\<close> under \<^verbatim>\<open>Block.isValid\<close>, whatever its other fields, the digest and the
  chain it belongs to: no check is run and no block is looked up.
\<close>

theorem genesis_valid:
  assumes "previousHash b = Some (replicate 64 (CHR ''0''))"
  shows "Block_isValid H bc b = Success True"
  using assms by (simp add: Block_isValid_def isGenesis_def)

theorem genesis_valid_witness:
  "previousHash oddGenesis = Some (replicate 64 (CHR ''0'')) \<and>
   timestamp oddGenesis = - 5 \<and> hash oddGenesis = None \<and>
   Block_isValid sample_digest sampleChain oddGenesis = Success True"
proof -
  have p: "previousHash oddGenesis = Some (replicate 64 (CHR ''0''))"
    by (simp add: oddGenesis_def sampleBlock_def)
  show ?thesis
    using genesis_valid[OF p, of sample_digest sampleChain] p
    by (simp add: oddGenesis_def sampleBlock_def)
qed

section \<open>Tampering\<close>

lemma mutateAt_blocks:
  "i < length (blocks bc) \<Longrightarrow> blocks (mutateAt i m bc) = (blocks bc)[i := mutate m (blocks bc ! i)]"
  by (simp add: mutateAt_def)

lemma tamperEvident_breaks:
  assumes "checkNoTampering H b" and "checkLinkage (Some p) b" and "tamperEvident H m b"
  shows "\<not> (checkNoTampering H (mutate m b) \<and> checkLinkage (Some p) (mutate m b))"
  using assms
  by (cases m) (auto simp: checkNoTampering_def checkLinkage_def calculateHash_def hashedFields_def)

text \<open>
  Claim C2, as the code has it. On a chain that satisfies the ledger invariant the
  chain validity check returns true. Overwriting, in a block after index 0 and without
  recomputing its hash, the field \<^verbatim>\<open>hash\<close> or \<^verbatim>\<open>previousHash\<close> with a different value, or
  one of the digest's fields \<^verbatim>\<open>timestamp\<close>, \<^verbatim>\<open>nonce\<close>, \<^verbatim>\<open>pendingTransactions\<close> with a value
  that changes the digest, makes the check return false.
\<close>

theorem tampering_detected:
  assumes "ledgerInvariant H bc" and "0 < i" and "i < length (blocks bc)"
    and "tamperEvident H m (blocks bc ! i)"
  shows "isChainValid H bc = Inr True \<and> isChainValid H (mutateAt i m bc) = Inr False"
proof -
  have inv: "\<forall>j. j < length (blocks bc) - 1 \<longrightarrow>
            checkNoTampering H (blocks bc ! Suc j) \<and>
            checkLinkage (Some (blocks bc ! j)) (blocks bc ! Suc j)"
    using assms(1) by (simp add: ledgerInvariant_index)
  then have v: "isChainValid H bc = Inr True" by (simp add: isChainValid_index)
  obtain j where j: "i = Suc j" using assms(2) by (cases i) auto
  with assms(3) have jl: "j < length (blocks bc) - 1" by simp
  let ?bs = "blocks (mutateAt i m bc)"
  have bs: "?bs = (blocks bc)[i := mutate m (blocks bc ! i)]"
    using assms(3) by (rule mutateAt_blocks)
  have "\<not> (checkNoTampering H (mutate m (blocks bc ! i)) \<and>
            checkLinkage (Some (blocks bc ! j)) (mutate m (blocks bc ! i)))"
    using inv jl assms(4) j by (intro tamperEvident_breaks) auto
  then have "\<not> (checkNoTampering H (?bs ! Suc j) \<and> checkLinkage (Some (?bs ! j)) (?bs ! Suc j))"
    using j assms(3) by (simp add: mutateAt_def)
  moreover have "j < length ?bs - 1" using jl by (simp add: bs)
  ultimately have "\<not> (\<forall>j. j < length ?bs - 1 \<longrightarrow>
            checkNoTampering H (?bs ! Suc j) \<and> checkLinkage (Some (?bs ! j)) (?bs ! Suc j))"
    by blast
  then have "isChainValid H (mutateAt i m bc) = Inr False"
    by (simp only: isChainValid_index)
  with v show ?thesis by simp
qed

theorem tampering_detected_witness:
  "ledgerInvariant sample_digest sampleChain \<and> (0::nat) < 1 \<and> 1 < length (blocks sampleChain) \<and>
   tamperEvident sample_digest (SetNonce 7) (blocks sampleChain ! 1) \<and>
   isChainValid sample_digest sampleChain = Inr True \<and>
   isChainValid sample_digest (mutateAt 1 (SetNonce 7) sampleChain) = Inr False"
proof -
  have l: "(0::nat) < 1" "1 < length (blocks sampleChain)"
    by (simp_all add: sampleChain_def)
  have t: "tamperEvident sample_digest (SetNonce 7) (blocks sampleChain ! 1)"
    by (simp add: sample_simps)
  show ?thesis
    using tampering_detected[OF sampleChain_invariant l t] sampleChain_invariant l t by simp
qed

text \<open>
  The claim as stated fails for a field outside the digest's field list: after the
  difficulty of the block at index 1 of a valid chain is overwritten, the chain validity
  check still returns true, and so does the block's own \<^verbatim>\<open>isValid\<close>.
\<close>

theorem difficulty_mutation_undetected:
  "isChainValid sample_digest sampleChain = Inr True \<and>
   mutate (SetDifficulty 0) (blocks sampleChain ! 1) \<noteq> blocks sampleChain ! 1 \<and>
   isChainValid sample_digest (mutateAt 1 (SetDifficulty 0) sampleChain) = Inr True \<and>
   Block_isValid sample_digest (mutateAt 1 (SetDifficulty 0) sampleChain)
     (blocks (mutateAt 1 (SetDifficulty 0) sampleChain) ! 1) = Success True"
proof -
  have "difficulty (mutate (SetDifficulty 0) (blocks sampleChain ! 1)) \<noteq> difficulty (blocks sampleChain ! 1)"
    by (simp add: sample_simps)
  then have "mutate (SetDifficulty 0) (blocks sampleChain ! 1) \<noteq> blocks sampleChain ! 1"
    by metis
  moreover have "isChainValid sample_digest (mutateAt 1 (SetDifficulty 0) sampleChain) = Inr True"
    by (simp add: isChainValid_def blockPairs_def pairValid_def blockAt_def enumerate_eq_zip
      mutateAt_def sample_simps)
  moreover have "Block_isValid sample_digest (mutateAt 1 (SetDifficulty 0) sampleChain)
     (blocks (mutateAt 1 (SetDifficulty 0) sampleChain) ! 1) = Success True"
    by (simp add: Block_isValid_def lookUp_def isGenesis_def mutateAt_def check_simps sample_simps)
  ultimately show ?thesis using sampleChain_valid by simp
qed

section \<open>Balances\<close>

text \<open>
  The modelled \<^verbatim>\<open>Money.add\<close> has \<^verbatim>\<open>Money.nothing()\<close> as identity on both sides and is
  commutative, as the spec requires of it; on integers whose sum has a magnitude of at
  most \<open>2^53\<close> the addition of numbers is exact.
\<close>

lemma jsAdd_commute: "jsAdd x y = jsAdd y x"
  by (cases x; cases y) (simp_all add: add.commute)

lemma Money_add_left_identity: "Money_add Money_nothing m = Inr m"
  by (simp add: Money_add_def)

lemma Money_add_right_identity: "Money_add m Money_nothing = Inr m"
  by (simp add: Money_add_def)

lemma Money_add_commute: "Money_add m1 m2 = Money_add m2 m1"
  by (auto simp: Money_add_def jsAdd_commute)

lemma jsAdd_exact:
  assumes "\<bar>a + b\<bar> \<le> 2 ^ 53"
  shows "jsAdd (Num a) (Num b) = Num (a + b)"
proof -
  have "(2::int) ^ 53 < 2 ^ 1024" by simp
  with assms have "a + b < 2 ^ 1024" "- (2 ^ 1024) < a + b" by linarith+
  with assms show ?thesis by (simp add: roundToDouble_def toNumber_def)
qed

lemma Money_eq: "currency m = c \<Longrightarrow> amount m = x \<Longrightarrow> m = mkMoney c x"
  by (cases m) (simp add: mkMoney_def)

lemma Money_add_exact:
  assumes "acc = Money_nothing \<and> s = 0 \<or> acc = mkMoney c (Num s)"
    and "\<bar>s\<bar> + \<bar>v\<bar> \<le> 2 ^ 53"
  shows "Money_add acc (mkMoney c (Num v)) = Inr (mkMoney c (Num (s + v)))"
proof (cases "acc = Money_nothing")
  case True
  with assms(1) have "s = 0" by (auto simp: Money_nothing_def mkMoney_def)
  with True show ?thesis by (simp add: Money_add_def)
next
  case False
  with assms(1) have acc: "acc = mkMoney c (Num s)" by blast
  show ?thesis
  proof (cases "mkMoney c (Num v) = Money_nothing")
    case True
    then have "v = 0" by (simp add: Money_nothing_def mkMoney_def)
    with True False acc show ?thesis by (simp add: Money_add_def)
  next
    case n: False
    have "\<bar>s + v\<bar> \<le> 2 ^ 53" using assms(2) by linarith
    then have "jsAdd (Num s) (Num v) = Num (s + v)" by (rule jsAdd_exact)
    with False n acc show ?thesis by (simp add: Money_add_def mkMoney_def)
  qed
qed

lemma reduce_Money_add_exact:
  assumes "\<forall>m\<in>set ms. currency m = c \<and> amount m = Num (intOf (amount m))"
    and "\<bar>s\<bar> + sum_list (map (\<lambda>m. \<bar>intOf (amount m)\<bar>) ms) \<le> 2 ^ 53"
    and "acc = Money_nothing \<and> s = 0 \<or> acc = mkMoney c (Num s)"
  shows "reduce Money_add acc ms =
     Inr (if ms = [] then acc else mkMoney c (Num (s + sum_list (map (\<lambda>m. intOf (amount m)) ms))))"
  using assms
proof (induction ms arbitrary: acc s)
  case Nil
  then show ?case by simp
next
  case (Cons m ms)
  define v where "v = intOf (amount m)"
  have m: "m = mkMoney c (Num v)"
    using Cons.prems(1) by (intro Money_eq) (simp_all add: v_def)
  have nn: "0 \<le> sum_list (map (\<lambda>m. \<bar>intOf (amount m)\<bar>) ms)"
    by (rule sum_list_nonneg) auto
  have b1: "\<bar>s\<bar> + \<bar>v\<bar> \<le> 2 ^ 53"
    using Cons.prems(2) nn by (simp add: v_def)
  have step: "Money_add acc m = Inr (mkMoney c (Num (s + v)))"
    unfolding m using Cons.prems(3) b1 by (rule Money_add_exact)
  have b2: "\<bar>s + v\<bar> + sum_list (map (\<lambda>m. \<bar>intOf (amount m)\<bar>) ms) \<le> 2 ^ 53"
    using Cons.prems(2) by (simp add: v_def)
  have "reduce Money_add (mkMoney c (Num (s + v))) ms =
     Inr (if ms = [] then mkMoney c (Num (s + v))
          else mkMoney c (Num ((s + v) + sum_list (map (\<lambda>m. intOf (amount m)) ms))))"
    using Cons.prems(1) b2 by (intro Cons.IH) auto
  then show ?case using step by (auto simp: v_def add.assoc)
qed

lemma mapped_Nil_iff:
  "(mapped a txs = []) = (\<not> (\<exists>tx\<in>set txs. fromAddress tx = a \<or> toAddress tx = a))"
  by (auto simp: mapped_def flatBiMap_def split_def filter_empty_conv)

lemma intOf_jsNeg: "x = Num (intOf x) \<Longrightarrow> jsNeg x = Num (- intOf x)"
  by (cases x) simp_all

lemma mapped_exact:
  assumes "list_all (\<lambda>tx. currency (money tx) = c \<and>
                      amount (money tx) = Num (intOf (amount (money tx)))) txs"
  shows "\<forall>m\<in>set (mapped a txs). currency m = c \<and> amount m = Num (intOf (amount m))"
  using assms
  by (auto simp: mapped_def flatBiMap_def split_def mkMoney_def list_all_iff intOf_jsNeg)

lemma mapped_sum:
  assumes "list_all (\<lambda>tx. currency (money tx) = c \<and>
                      amount (money tx) = Num (intOf (amount (money tx)))) txs"
  shows "sum_list (map (\<lambda>m. intOf (amount m)) (mapped a txs)) = netAmount a txs"
  using assms
  by (induction txs)
     (auto simp: mapped_def flatBiMap_def split_def mkMoney_def netAmount_def txDelta_def intOf_jsNeg)

lemma mapped_abs:
  assumes "list_all (\<lambda>tx. currency (money tx) = c \<and>
                      amount (money tx) = Num (intOf (amount (money tx)))) txs"
  shows "sum_list (map (\<lambda>m. \<bar>intOf (amount m)\<bar>) (mapped a txs))
           \<le> 2 * sum_list (map (\<lambda>tx. \<bar>intOf (amount (money tx))\<bar>) txs)"
  using assms
  by (induction txs)
     (auto simp: mapped_def flatBiMap_def split_def mkMoney_def intOf_jsNeg)

lemma reduce_mapped_exact:
  assumes "exactTxs c txs"
  shows "reduce Money_add Money_nothing (mapped a txs) = Inr (balanceValue c a txs)"
proof -
  from assms have all: "list_all (\<lambda>tx. currency (money tx) = c \<and>
                      amount (money tx) = Num (intOf (amount (money tx)))) txs"
    and bound: "sum_list (map (\<lambda>tx. \<bar>intOf (amount (money tx))\<bar>) txs) \<le> 2 ^ 52"
    by (simp_all add: exactTxs_def)
  have "sum_list (map (\<lambda>m. \<bar>intOf (amount m)\<bar>) (mapped a txs)) \<le> 2 ^ 53"
    using mapped_abs[OF all, of a] bound by simp
  then have b: "\<bar>0::int\<bar> + sum_list (map (\<lambda>m. \<bar>intOf (amount m)\<bar>) (mapped a txs)) \<le> 2 ^ 53"
    by simp
  have "reduce Money_add Money_nothing (mapped a txs) =
     Inr (if mapped a txs = [] then Money_nothing
          else mkMoney c (Num (0 + sum_list (map (\<lambda>m. intOf (amount m)) (mapped a txs)))))"
    using mapped_exact[OF all] b by (rule reduce_Money_add_exact) simp
  then show ?thesis
    by (simp add: mapped_sum[OF all] mapped_Nil_iff balanceValue_def)
qed

lemma foldl_R_concat: "foldl R_concat x xs = x @ concat xs"
  by (induction xs arbitrary: x) (simp_all add: R_concat_def)

lemma reduce1_R_concat:
  "reduce1 R_concat xss = (if xss = [] then Inl TypeError else Inr (concat xss))"
  by (cases xss) (simp_all add: foldl_R_concat)

lemma calculateBalanceOfAddress_eq:
  "calculateBalanceOfAddress add nothing bc a =
     (if list_all isGenesis (blocks bc) then Inl TypeError
      else reduce add nothing (mapped a (ledgerTxs bc)))"
proof -
  have e: "(filter (\<lambda>b. \<not> isGenesis b) (blocks bc) = []) = list_all isGenesis (blocks bc)"
    by (simp add: filter_empty_conv list_all_iff)
  show ?thesis
    unfolding calculateBalanceOfAddress_def reduce1_R_concat
    by (simp add: e mapped_def ledgerTxs_def)
qed

lemma balance_exact:
  assumes "exactLedger c bc"
  shows "calculateBalanceOfAddress Money_add Money_nothing bc a =
     (if list_all isGenesis (blocks bc) then Inl TypeError
      else Inr (balanceValue c a (ledgerTxs bc)))"
  using assms by (simp add: calculateBalanceOfAddress_eq exactLedger_def reduce_mapped_exact)

text \<open>
  Claim C3. On the chain that holds only its genesis block the fold of the claim (the
  imperative version) gives the zero Money value, but \<^verbatim>\<open>calculateBalanceOfAddress\<close>
  throws: the \<^verbatim>\<open>reduce(concat)\<close> over the empty list of transaction arrays has no initial
  value. This holds whatever \<^verbatim>\<open>Money.add\<close>, \<^verbatim>\<open>plus\<close>, \<^verbatim>\<open>minus\<close> and \<^verbatim>\<open>Money.nothing()\<close> are.
\<close>

theorem balance_of_genesis_chain_throws:
  "calculateBalanceOfAddress add nothing genesisChain a = Inl TypeError \<and>
   calculateBalanceOfAddress_imperative moneyPlus moneyMinus nothing genesisChain a = Inr nothing"
  by (simp add: calculateBalanceOfAddress_eq calculateBalanceOfAddress_imperative_def
      genesisChain_def sampleGenesis_def isGenesis_def Block_calculateHash_def)

text \<open>
  Claim C9. On a chain with no non-genesis block (only the genesis block, for
  instance) \<^verbatim>\<open>calculateBalanceOfAddress\<close> fails with a TypeError, for every address,
  whatever \<^verbatim>\<open>Money.add\<close> and \<^verbatim>\<open>Money.nothing()\<close> are: the addition is never reached.
\<close>

theorem genesis_only_fails:
  assumes "list_all isGenesis (blocks bc)"
  shows "calculateBalanceOfAddress add nothing bc a = Inl TypeError"
  using assms by (simp add: calculateBalanceOfAddress_eq)

theorem genesis_only_fails_witness:
  "list_all isGenesis (blocks genesisChain) \<and>
   calculateBalanceOfAddress
     (\<lambda>m1 m2. Inr (mkMoney (currency m1) (jsAdd (amount m1) (amount m2))))
     (mkMoney BTC (Num 0)) genesisChain (Some ''alice'') = Inl TypeError"
proof -
  have g: "list_all isGenesis (blocks genesisChain)"
    by (simp add: genesisChain_def sampleGenesis_def isGenesis_def Block_calculateHash_def)
  show ?thesis
    using genesis_only_fails[OF g,
        of "\<lambda>m1 m2. Inr (mkMoney (currency m1) (jsAdd (amount m1) (amount m2)))"
           "mkMoney BTC (Num 0)" "Some ''alice''"] g
    by simp
qed

lemma sum_list_mset_cong:
  fixes f :: "'a \<Rightarrow> 'b::comm_monoid_add"
  shows "mset xs = mset ys \<Longrightarrow> sum_list (map f xs) = sum_list (map f ys)"
  by (metis mset_map sum_mset_sum_list)

lemma mset_ledgerTxs_blocks:
  "mset (concat (map pendingTransactions (filter (\<lambda>b. \<not> isGenesis b) bs)))
     = sum_list (map blockTxs bs)"
  by (induction bs) (simp_all add: blockTxs_def)

lemma txReordered_isGenesis: "txReordered b b' \<Longrightarrow> isGenesis b' = isGenesis b"
proof -
  assume "txReordered b b'"
  then have "b' = b\<lparr>pendingTransactions := pendingTransactions b'\<rparr>"
    unfolding txReordered_def by (rule conjunct1)
  then have "previousHash b' = previousHash (b\<lparr>pendingTransactions := pendingTransactions b'\<rparr>)"
    by (rule arg_cong)
  then show ?thesis by (simp add: isGenesis_def)
qed

lemma txReordered_blockTxs: "txReordered b b' \<Longrightarrow> blockTxs b' = blockTxs b"
proof -
  assume r: "txReordered b b'"
  then have g: "isGenesis b' = isGenesis b" by (rule txReordered_isGenesis)
  have "mset (pendingTransactions b') = mset (pendingTransactions b)"
    using r unfolding txReordered_def by (rule conjunct2)
  with g show ?thesis by (simp add: blockTxs_def)
qed

lemma list_all2_blockTxs:
  "list_all2 txReordered bs bs' \<Longrightarrow> sum_list (map blockTxs bs') = sum_list (map blockTxs bs)"
  by (induction rule: list_all2_induct) (simp_all add: txReordered_blockTxs)

lemma list_all2_isGenesis:
  "list_all2 txReordered bs bs' \<Longrightarrow> list_all isGenesis bs' = list_all isGenesis bs"
  by (induction rule: list_all2_induct) (simp_all add: txReordered_isGenesis)

lemma mset_isGenesis:
  "mset bs' = mset bs \<Longrightarrow> list_all isGenesis bs' = list_all isGenesis bs"
proof -
  assume "mset bs' = mset bs"
  then have "set bs' = set bs" by (rule mset_eq_setD)
  then show ?thesis by (simp only: list_all_iff)
qed

lemma reordered_ledgerTxs:
  assumes "list_all2 txReordered (blocks bc) bs" and "mset (blocks bc') = mset bs"
  shows "mset (ledgerTxs bc') = mset (ledgerTxs bc)"
proof -
  have "mset (ledgerTxs bc') = sum_list (map blockTxs (blocks bc'))"
    unfolding ledgerTxs_def by (rule mset_ledgerTxs_blocks)
  also have "\<dots> = sum_list (map blockTxs bs)"
    using assms(2) by (rule sum_list_mset_cong)
  also have "\<dots> = sum_list (map blockTxs (blocks bc))"
    using assms(1) by (rule list_all2_blockTxs)
  also have "\<dots> = mset (ledgerTxs bc)"
    unfolding ledgerTxs_def by (rule mset_ledgerTxs_blocks[symmetric])
  finally show ?thesis .
qed

lemma reordered_isGenesis:
  assumes "list_all2 txReordered (blocks bc) bs" and "mset (blocks bc') = mset bs"
  shows "list_all isGenesis (blocks bc') = list_all isGenesis (blocks bc)"
proof -
  have "list_all isGenesis (blocks bc') = list_all isGenesis bs"
    using assms(2) by (rule mset_isGenesis)
  also have "\<dots> = list_all isGenesis (blocks bc)"
    using assms(1) by (rule list_all2_isGenesis)
  finally show ?thesis .
qed

lemma exactTxs_mset:
  assumes "mset txs' = mset txs"
  shows "exactTxs c txs' = exactTxs c txs"
proof -
  from assms have "set txs' = set txs" by (rule mset_eq_setD)
  moreover have "sum_list (map (\<lambda>tx. \<bar>intOf (amount (money tx))\<bar>) txs')
               = sum_list (map (\<lambda>tx. \<bar>intOf (amount (money tx))\<bar>) txs)"
    using assms by (rule sum_list_mset_cong)
  ultimately show ?thesis by (simp only: exactTxs_def list_all_iff)
qed

lemma balanceValue_mset:
  assumes "mset txs' = mset txs"
  shows "balanceValue c a txs' = balanceValue c a txs"
proof -
  from assms have "set txs' = set txs" by (rule mset_eq_setD)
  moreover have "netAmount a txs' = netAmount a txs"
    unfolding netAmount_def using assms by (rule sum_list_mset_cong)
  ultimately show ?thesis by (simp only: balanceValue_def)
qed

lemma ledgerTxs_sample: "ledgerTxs sampleChain = [tx1, tx2, tx3]"
  by code_simp

lemma exact_sample: "exactLedger BTC sampleChain"
  by (simp add: exactLedger_def ledgerTxs_sample exactTxs_def tx1_def tx2_def tx3_def
      mkTransaction_def mkMoney_def)

lemma sample_balance:
  "calculateBalanceOfAddress Money_add Money_nothing sampleChain (Some ''alice'')
     = Inr (mkMoney BTC (Num 70))"
proof -
  have "\<not> list_all isGenesis (blocks sampleChain)" by code_simp
  then show ?thesis
    by (simp add: balance_exact[OF exact_sample] ledgerTxs_sample balanceValue_def netAmount_def
        txDelta_def tx1_def tx2_def tx3_def mkTransaction_def mkMoney_def)
qed

text \<open>
  Claim C8, as the code has it. On a ledger whose amounts are integers in one currency
  with magnitudes that add up to at most \<open>2^52\<close>, so that every partial sum is exact, the
  result of \<^verbatim>\<open>calculateBalanceOfAddress\<close> (a balance or the failure) does not change when
  the transactions inside each block are permuted (\<open>bs\<close> is the chain with the transactions
  of each block reordered) and the blocks are then processed in another order (the
  blocks of \<open>bc'\<close> are a permutation of \<open>bs\<close>).
\<close>

theorem balance_reorder:
  assumes "list_all2 txReordered (blocks bc) bs" and "mset (blocks bc') = mset bs"
    and "exactLedger c bc"
  shows "calculateBalanceOfAddress Money_add Money_nothing bc' a
       = calculateBalanceOfAddress Money_add Money_nothing bc a"
proof -
  have m: "mset (ledgerTxs bc') = mset (ledgerTxs bc)"
    using assms(1,2) by (rule reordered_ledgerTxs)
  have g: "list_all isGenesis (blocks bc') = list_all isGenesis (blocks bc)"
    using assms(1,2) by (rule reordered_isGenesis)
  have e': "exactLedger c bc'"
    using assms(3) exactTxs_mset[OF m, of c] by (simp only: exactLedger_def)
  have v: "balanceValue c a (ledgerTxs bc') = balanceValue c a (ledgerTxs bc)"
    using m by (rule balanceValue_mset)
  show ?thesis
    by (simp only: balance_exact[OF assms(3)] balance_exact[OF e'] g v)
qed

theorem balance_reorder_witness:
  "list_all2 txReordered (blocks sampleChain) [sampleGenesis, block1', block2] \<and>
   mset (blocks shuffledChain) = mset [sampleGenesis, block1', block2] \<and>
   exactLedger BTC sampleChain \<and>
   calculateBalanceOfAddress Money_add Money_nothing shuffledChain (Some ''alice'')
     = calculateBalanceOfAddress Money_add Money_nothing sampleChain (Some ''alice'') \<and>
   calculateBalanceOfAddress Money_add Money_nothing shuffledChain (Some ''alice'')
     = Inr (mkMoney BTC (Num 70))"
proof -
  have r: "list_all2 txReordered (blocks sampleChain) [sampleGenesis, block1', block2]"
    by (simp add: sampleChain_def txReordered_def block1'_def block1_def Block_calculateHash_def
        sampleBlock_def add_mset_commute)
  have m: "mset (blocks shuffledChain) = mset [sampleGenesis, block1', block2]"
    by (simp add: shuffledChain_def)
  show ?thesis
    using balance_reorder[OF r m exact_sample, of "Some ''alice''"] r m exact_sample
      sample_balance
    by simp
qed

lemma bitLength_range: "2 ^ k \<le> n \<Longrightarrow> n < 2 ^ Suc k \<Longrightarrow> bitLength n = Suc k"
proof (induction k arbitrary: n)
  case 0
  then have "n = 1" by simp
  then show ?case by (simp add: bitLength.simps[of "Suc 0"] bitLength.simps[of 0])
next
  case (Suc k)
  then have "2 ^ k \<le> n div 2" "n div 2 < 2 ^ Suc k" by simp_all
  then have "bitLength (n div 2) = Suc k" by (rule Suc.IH)
  moreover have "(0::nat) < 2 ^ Suc k" by simp
  then have "n \<noteq> 0" using Suc.prems(1) by linarith
  ultimately show ?case by (subst bitLength.simps) simp
qed

lemma bitLength_example: "bitLength 9007199254740993 = 54"
proof -
  have "bitLength 9007199254740993 = Suc 53"
    by (rule bitLength_range) simp_all
  then show ?thesis by simp
qed

lemma rounding_tie: "roundToDouble 9007199254740993 = 9007199254740992"
  by (simp add: roundToDouble_def Let_def bitLength_example)

lemma bitLength_example2: "bitLength 9007199254740994 = 54"
proof -
  have "bitLength 9007199254740994 = Suc 53"
    by (rule bitLength_range) simp_all
  then show ?thesis by simp
qed

lemma rounding_even: "roundToDouble 9007199254740994 = 9007199254740994"
  by (simp add: roundToDouble_def Let_def bitLength_example2)

lemma rounding_small: "roundToDouble 2 = 2"
  by (simp add: roundToDouble_def)

lemma not_genesis_big: "\<not> isGenesis bigBlock" "\<not> isGenesis bigBlock'" "isGenesis sampleGenesis"
  by code_simp+

lemma mapped_big:
  "mapped (Some ''bob'') (ledgerTxs bigChain)
     = [mkMoney BTC (Num 9007199254740992), mkMoney BTC (Num 1), mkMoney BTC (Num 1)]"
  "mapped (Some ''bob'') (ledgerTxs bigChain')
     = [mkMoney BTC (Num 1), mkMoney BTC (Num 1), mkMoney BTC (Num 9007199254740992)]"
  by (simp_all add: ledgerTxs_def bigChain_def bigChain'_def not_genesis_big mapped_def
      flatBiMap_def split_def)
     (simp_all add: bigBlock_def bigBlock'_def bigTx_def oneTx_def sampleBlock_def
      Block_calculateHash_def mkTransaction_def mkMoney_def)

lemma big_not_exact: "\<not> exactLedger BTC bigChain"
  by (simp add: exactLedger_def exactTxs_def ledgerTxs_def bigChain_def not_genesis_big)
     (simp add: bigBlock_def bigTx_def oneTx_def sampleBlock_def
      Block_calculateHash_def mkTransaction_def mkMoney_def)

lemma BTC_not_nothing: "mkMoney BTC x \<noteq> Money_nothing"
  by (simp add: mkMoney_def Money_nothing_def BTC_def)

text \<open>
  The claim as stated fails, because the sum of JavaScript numbers depends on the order:
  a block pays \<open>2^53\<close>, 1 and 1 to the same address. In this order each 1 is lost to
  rounding and the balance is \<open>2^53\<close>; with the transactions of the block reordered so
  that the large payment comes last, the balance is \<open>2^53 + 2\<close>.
\<close>

theorem double_sum_depends_on_order:
  "list_all2 txReordered (blocks bigChain) (blocks bigChain') \<and>
   \<not> exactLedger BTC bigChain \<and>
   calculateBalanceOfAddress Money_add Money_nothing bigChain (Some ''bob'')
     = Inr (mkMoney BTC (Num 9007199254740992)) \<and>
   calculateBalanceOfAddress Money_add Money_nothing bigChain' (Some ''bob'')
     = Inr (mkMoney BTC (Num 9007199254740994))"
proof -
  have r: "list_all2 txReordered (blocks bigChain) (blocks bigChain')"
    by (simp add: bigChain_def bigChain'_def txReordered_def bigBlock'_def)
       (simp add: bigBlock_def Block_calculateHash_def sampleBlock_def add_mset_commute)
  have g: "\<not> list_all isGenesis (blocks bigChain)" "\<not> list_all isGenesis (blocks bigChain')"
    by (simp_all add: bigChain_def bigChain'_def not_genesis_big)
  have cur: "currency (mkMoney BTC x) = BTC" "amount (mkMoney BTC x) = x" for x
    by (simp_all add: mkMoney_def)
  have a: "calculateBalanceOfAddress Money_add Money_nothing bigChain (Some ''bob'')
     = Inr (mkMoney BTC (Num 9007199254740992))"
    by (simp add: calculateBalanceOfAddress_eq g mapped_big Money_add_def BTC_not_nothing cur
        rounding_tie toNumber_def)
  have b: "calculateBalanceOfAddress Money_add Money_nothing bigChain' (Some ''bob'')
     = Inr (mkMoney BTC (Num 9007199254740994))"
    by (simp add: calculateBalanceOfAddress_eq g mapped_big Money_add_def BTC_not_nothing cur
        rounding_small rounding_even toNumber_def)
  from r big_not_exact a b show ?thesis by simp
qed

section \<open>Mining\<close>

lemma calculateHash_sealed [simp]:
  "calculateHash H (Block_calculateHash H b) = calculateHash H b"
  by (simp add: Block_calculateHash_def calculateHash_def hashedFields_def)

lemma proofOfWork_first:
  assumes "startsWith (calculateHash H (block\<lparr>nonce := n + int k\<rparr>)) p"
    and "\<forall>j<k. \<not> startsWith (calculateHash H (block\<lparr>nonce := n + int j\<rparr>)) p"
  shows "proofOfWork H block p n = Some (Block_calculateHash H (block\<lparr>nonce := n + int k\<rparr>))"
  using assms
proof (induction k arbitrary: n)
  case 0
  then show ?case by (subst proofOfWork.simps) (simp add: Let_def)
next
  case (Suc k)
  have shift: "n + int (Suc j) = (n + 1) + int j" for j by simp
  from Suc.prems(2) have "\<not> startsWith (calculateHash H (block\<lparr>nonce := n + int 0\<rparr>)) p"
    by blast
  then have miss: "\<not> startsWith (calculateHash H (block\<lparr>nonce := n\<rparr>)) p"
    by simp
  have hit: "startsWith (calculateHash H (block\<lparr>nonce := (n + 1) + int k\<rparr>)) p"
    using Suc.prems(1) unfolding shift .
  have misses: "\<forall>j<k. \<not> startsWith (calculateHash H (block\<lparr>nonce := (n + 1) + int j\<rparr>)) p"
  proof (intro allI impI)
    fix j assume "j < k"
    then have "Suc j < Suc k" by simp
    with Suc.prems(2) have "\<not> startsWith (calculateHash H (block\<lparr>nonce := n + int (Suc j)\<rparr>)) p"
      by blast
    then show "\<not> startsWith (calculateHash H (block\<lparr>nonce := (n + 1) + int j\<rparr>)) p"
      unfolding shift .
  qed
  have "proofOfWork H block p n = proofOfWork H block p (n + 1)"
    using miss by (subst proofOfWork.simps) (simp add: Let_def)
  also have "\<dots> = Some (Block_calculateHash H (block\<lparr>nonce := (n + 1) + int k\<rparr>))"
    using hit misses by (rule Suc.IH)
  finally show ?case unfolding shift .
qed

lemma startsWith_replicate:
  "startsWith h (replicate d c) = (d \<le> length (takeWhile (\<lambda>x. x = c) h))"
proof (induction h arbitrary: d)
  case Nil
  then show ?case by (auto simp: startsWith_def)
next
  case (Cons x h)
  then show ?case by (cases d) (auto simp: startsWith_def)
qed

lemma first_hit:
  fixes P :: "int \<Rightarrow> bool"
  assumes "\<exists>m\<ge>n. P m"
  shows "\<exists>k. P (n + int k) \<and> (\<forall>j<k. \<not> P (n + int j))"
proof -
  from assms obtain m where "n \<le> m" "P m" by blast
  then have "P (n + int (nat (m - n)))" by simp
  then have e: "\<exists>k. P (n + int k)" by blast
  define k where "k = (LEAST k. P (n + int k))"
  have "P (n + int k)" unfolding k_def using e by (rule LeastI_ex)
  moreover have "\<forall>j<k. \<not> P (n + int j)" unfolding k_def using not_less_Least by blast
  ultimately show ?thesis by blast
qed

text \<open>
  Claim C4, as the model of the proof of work has it. If some nonce from the starting
  nonce on satisfies the difficulty predicate, mining returns the block with the
  smallest such nonce and its hash, and the hash has at least \<^verbatim>\<open>difficulty\<close> leading zero
  characters; with difficulty 0 the first attempt succeeds, at the starting nonce.
\<close>

theorem mine_first_nonce:
  "(difficulty b \<le> 0 \<longrightarrow> Block_mine H b = Some (Block_calculateHash H b)) \<and>
   ((\<exists>m\<ge>nonce b. meetsDifficulty H b m) \<longrightarrow>
      (\<exists>m\<ge>nonce b.
         Block_mine H b = Some (Block_calculateHash H (b\<lparr>nonce := m\<rparr>)) \<and>
         difficulty b \<le> int (leadingZeros (calculateHash H (b\<lparr>nonce := m\<rparr>))) \<and>
         (\<forall>k. nonce b \<le> k \<and> k < m \<longrightarrow> \<not> meetsDifficulty H b k)))"
proof (intro conjI impI)
  assume "difficulty b \<le> 0"
  then have "startsWith (calculateHash H (b\<lparr>nonce := nonce b + int 0\<rparr>)) (replicate (nat (difficulty b)) (CHR ''0''))"
    by (simp add: startsWith_def)
  then have "proofOfWork H b (replicate (nat (difficulty b)) (CHR ''0'')) (nonce b)
       = Some (Block_calculateHash H (b\<lparr>nonce := nonce b + int 0\<rparr>))"
    by (rule proofOfWork_first) simp
  then show "Block_mine H b = Some (Block_calculateHash H b)"
    by (simp add: Block_mine_def)
next
  let ?p = "replicate (nat (difficulty b)) (CHR ''0'')"
  assume "\<exists>m\<ge>nonce b. meetsDifficulty H b m"
  then obtain k where k: "meetsDifficulty H b (nonce b + int k)"
      "\<forall>j<k. \<not> meetsDifficulty H b (nonce b + int j)"
    using first_hit[of "nonce b" "meetsDifficulty H b"] by blast
  then have "proofOfWork H b ?p (nonce b) = Some (Block_calculateHash H (b\<lparr>nonce := nonce b + int k\<rparr>))"
    unfolding meetsDifficulty_def by (rule proofOfWork_first)
  then have r: "Block_mine H b = Some (Block_calculateHash H (b\<lparr>nonce := nonce b + int k\<rparr>))"
    by (simp add: Block_mine_def)
  have z: "difficulty b \<le> int (leadingZeros (calculateHash H (b\<lparr>nonce := nonce b + int k\<rparr>)))"
    using k(1) by (simp add: meetsDifficulty_def startsWith_replicate leadingZeros_def)
  have least: "\<forall>k'. nonce b \<le> k' \<and> k' < nonce b + int k \<longrightarrow> \<not> meetsDifficulty H b k'"
  proof (intro allI impI)
    fix k' assume a: "nonce b \<le> k' \<and> k' < nonce b + int k"
    then have "nat (k' - nonce b) < k" by linarith
    with k(2) have "\<not> meetsDifficulty H b (nonce b + int (nat (k' - nonce b)))" by blast
    with a show "\<not> meetsDifficulty H b k'" by simp
  qed
  show "\<exists>m\<ge>nonce b.
         Block_mine H b = Some (Block_calculateHash H (b\<lparr>nonce := m\<rparr>)) \<and>
         difficulty b \<le> int (leadingZeros (calculateHash H (b\<lparr>nonce := m\<rparr>))) \<and>
         (\<forall>k. nonce b \<le> k \<and> k < m \<longrightarrow> \<not> meetsDifficulty H b k)"
    using r z least by (intro exI[of _ "nonce b + int k"]) simp
qed

theorem mine_first_nonce_witness:
  "meetsDifficulty sample_digest miningBlock 1 \<and> nonce miningBlock \<le> 1 \<and>
   Block_mine sample_digest miningBlock
     = Some (Block_calculateHash sample_digest (miningBlock\<lparr>nonce := 1\<rparr>)) \<and>
   difficulty freeBlock \<le> 0 \<and>
   Block_mine sample_digest freeBlock = Some (Block_calculateHash sample_digest freeBlock)"
proof -
  have h1: "meetsDifficulty sample_digest miningBlock 1"
    by (simp add: meetsDifficulty_def startsWith_def replicate_2 sample_simps)
  have n0: "nonce miningBlock = 0" "difficulty miningBlock = 2"
    by (simp_all add: miningBlock_def sampleBlock_def)
  have z0: "leadingZeros (calculateHash sample_digest (miningBlock\<lparr>nonce := 0\<rparr>)) = 0"
    by (simp add: leadingZeros_def sample_simps)
  have ex: "\<exists>m\<ge>nonce miningBlock. meetsDifficulty sample_digest miningBlock m"
    using h1 n0 by (intro exI[of _ 1]) simp
  with mine_first_nonce[of miningBlock sample_digest]
  obtain m where m: "nonce miningBlock \<le> m"
      "Block_mine sample_digest miningBlock
         = Some (Block_calculateHash sample_digest (miningBlock\<lparr>nonce := m\<rparr>))"
      "difficulty miningBlock
         \<le> int (leadingZeros (calculateHash sample_digest (miningBlock\<lparr>nonce := m\<rparr>)))"
      "\<forall>k. nonce miningBlock \<le> k \<and> k < m \<longrightarrow> \<not> meetsDifficulty sample_digest miningBlock k"
    by blast
  have "m \<noteq> 0" using m(3) z0 n0 by auto
  moreover have "\<not> 1 < m" using m(4) h1 n0 by auto
  ultimately have "m = 1" using m(1) n0 by simp
  moreover have d: "difficulty freeBlock \<le> 0" by (simp add: freeBlock_def)
  ultimately show ?thesis
    using m(2) h1 n0 mine_first_nonce[of freeBlock sample_digest] by simp
qed

text \<open>
  The claim as stated fails on the number of zeros: mining \<open>easyBlock\<close> at difficulty 1
  succeeds at once with a hash that has two leading zero characters.
\<close>

theorem mine_more_leading_zeros:
  "Block_mine sample_digest easyBlock = Some (Block_calculateHash sample_digest easyBlock) \<and>
   difficulty easyBlock = 1 \<and>
   leadingZeros (calculateHash sample_digest easyBlock) = 2"
proof -
  have "Block_mine sample_digest easyBlock = Some (Block_calculateHash sample_digest easyBlock)"
    unfolding Block_mine_def
    by (subst proofOfWork.simps) (simp add: Let_def startsWith_def sample_simps)
  then show ?thesis by (simp add: leadingZeros_def sample_simps)
qed






section \<open>The validation pipeline\<close>

lemma flatMap_map_get:
  "Validation_get (Validation_map f (Success a)) = Inr (flatMap (Success a) f)"
  by simp

lemma flatMap_Failure_list: "foldl flatMap (Failure e) cs = Failure e"
  by (induction cs) simp_all

lemma pipeline_all_pass:
  "(\<forall>c\<in>set cs. c x = Success x) \<Longrightarrow> foldl flatMap (Success x) cs = Success x"
  by (induction cs) simp_all

lemma Transaction_isValid_pipeline:
  "Transaction_isValid checkSignature checkTampering tx
     = flatMap (pipeline [checkSignature, checkTampering] tx) (\<lambda>_. Success True)"
  by (simp add: Transaction_isValid_def pipeline_def)

text \<open>
  Claim C5. A \<^verbatim>\<open>Failure\<close> is returned unchanged by \<^verbatim>\<open>flatMap\<close>, whatever the function.
  The checks of a pipeline run in order: when the checks before \<open>c\<close> succeed (each returns
  \<^verbatim>\<open>Success\<close> of the entity) and \<open>c\<close> fails, the pipeline returns the failure of \<open>c\<close>,
  whatever the later checks would say; when all checks succeed, the pipeline returns
  \<^verbatim>\<open>Success\<close> of the entity.
\<close>

theorem pipeline_short_circuit:
  "flatMap (Failure e) g = Failure e \<and>
   ((\<forall>p\<in>set pre. p x = Success x) \<and> c x = Failure e \<longrightarrow>
      pipeline (pre @ c # post) x = Failure e) \<and>
   ((\<forall>p\<in>set cs. p x = Success x) \<longrightarrow> pipeline cs x = Success x)"
  by (simp add: pipeline_def Validation_of_def pipeline_all_pass flatMap_Failure_list)

theorem pipeline_short_circuit_witness:
  "checkTimestampsV 10 tamperedBlock1 = Success tamperedBlock1 \<and>
   checkTamperingV sample_digest tamperedBlock1 = Failure ''Block hash is invalid'' \<and>
   checkTimestampsV 100 tamperedBlock1 = Failure ''Block timestamps out of order'' \<and>
   pipeline [checkTimestampsV 10, checkTamperingV sample_digest, checkTimestampsV 100] tamperedBlock1
     = Failure ''Block hash is invalid'' \<and>
   checkTamperingV sample_digest block1 = Success block1 \<and>
   checkTimestampsV 10 block1 = Success block1 \<and>
   pipeline [checkTamperingV sample_digest, checkTimestampsV 10] block1 = Success block1"
proof -
  have a: "checkTimestampsV 10 tamperedBlock1 = Success tamperedBlock1"
    by (simp add: checkTimestampsV_def sample_simps)
  have b: "checkTamperingV sample_digest tamperedBlock1 = Failure ''Block hash is invalid''"
    by (simp add: checkTamperingV_def sample_simps)
  have b': "checkTimestampsV 100 tamperedBlock1 = Failure ''Block timestamps out of order''"
    by (simp add: checkTimestampsV_def sample_simps)
  have c: "checkTamperingV sample_digest block1 = Success block1"
    by (simp add: checkTamperingV_def sample_simps)
  have d: "checkTimestampsV 10 block1 = Success block1"
    by (simp add: checkTimestampsV_def sample_simps)
  have "(\<forall>p\<in>set [checkTimestampsV 10]. p tamperedBlock1 = Success tamperedBlock1) \<and>
        checkTamperingV sample_digest tamperedBlock1 = Failure ''Block hash is invalid''"
    using a b by simp
  with pipeline_short_circuit[of "''Block hash is invalid''" "checkTimestampsV 100"
        "[checkTimestampsV 10]" tamperedBlock1 "checkTamperingV sample_digest"
        "[checkTimestampsV 100]" "[]"]
  have "pipeline ([checkTimestampsV 10] @ checkTamperingV sample_digest # [checkTimestampsV 100])
          tamperedBlock1 = Failure ''Block hash is invalid''"
    by blast
  then have f: "pipeline [checkTimestampsV 10, checkTamperingV sample_digest, checkTimestampsV 100]
          tamperedBlock1 = Failure ''Block hash is invalid''"
    by simp
  have "\<forall>p\<in>set [checkTamperingV sample_digest, checkTimestampsV 10]. p block1 = Success block1"
    using c d by simp
  with pipeline_short_circuit[of "''Block hash is invalid''" "checkTimestampsV 100" "[]"
        block1 "checkTamperingV sample_digest" "[]"
        "[checkTamperingV sample_digest, checkTimestampsV 10]"]
  have "pipeline [checkTamperingV sample_digest, checkTimestampsV 10] block1 = Success block1"
    by blast
  with f show ?thesis using a b b' c d by simp
qed


end
